theory Spec2Isabelle
  imports Main "HOL-Library.Multiset"
begin

section \<open>Data model (src/photo-reorganizer/src/types/index.ts)\<close>

text \<open>
  \<^verbatim>\<open>Photo\<close> and \<open>Product\<close> are the interfaces of \<^verbatim>\<open>types/index.ts\<close>. The field \<^verbatim>\<open>id\<close> is
  called \<open>photo_id\<close> and \<^verbatim>\<open>order\<close> is called \<open>photo_order\<close> here, because \<open>id\<close> and
  \<open>order\<close> are names of the HOL library.
\<close>

record Photo =
  photo_id :: string
  filename :: string
  path :: string
  photo_order :: nat

record Product =
  sku :: string
  photos :: "Photo list"
  totalImages :: nat

text \<open>
  \<^verbatim>\<open>RenameInstruction\<close> is an object of objects: \<^verbatim>\<open>{ [sku]: { [oldName]: newName } }\<close>.
  The inner object of one sku is a finite map from old names to new names.
  The handlers copy the outer object with a spread and then assign into the inner
  object, which the copy shares with the object it was copied from. The inner objects
  therefore live in a store and the outer object holds their addresses.
  Lookups are own-property lookups: a sku or a filename is assumed not to be the name
  of a property of \<^verbatim>\<open>Object.prototype\<close> (filenames of the listing carry an extension).
\<close>

type_synonym Instructions = "string \<rightharpoonup> string"
type_synonym ref = nat
type_synonym RenameInstruction = "string \<rightharpoonup> ref"

text \<open>
  The part of the component's state the handlers read and write: the two
  \<^verbatim>\<open>useState\<close> cells \<^verbatim>\<open>products\<close> and \<^verbatim>\<open>renameInstructions\<close> of \<^verbatim>\<open>PhotoGrid\<close>, and the
  store of inner objects with the next unused address.
\<close>

record AppState =
  products :: "Product list"
  renameInstructions :: RenameInstruction
  heap :: "ref \<Rightarrow> Instructions"
  nextRef :: ref

text \<open>
  \<^verbatim>\<open>DragEndEvent\<close>: \<^verbatim>\<open>active.id\<close>, \<^verbatim>\<open>active.data.current.sku\<close> and the same for \<^verbatim>\<open>over\<close>,
  which is \<^verbatim>\<open>null\<close> when the item is dropped outside every target.
\<close>

record DragItem =
  item_id :: string
  item_sku :: string

record DragEndEvent =
  active :: DragItem
  over :: "DragItem option"

section \<open>Library functions of the host language\<close>

text \<open>\<^verbatim>\<open>Array.prototype.findIndex\<close>; \<open>None\<close> stands for the result \<^verbatim>\<open>-1\<close>.\<close>

fun findIndex :: "('a \<Rightarrow> bool) \<Rightarrow> 'a list \<Rightarrow> nat option" where
  "findIndex P [] = None"
| "findIndex P (x # xs) = (if P x then Some 0 else map_option Suc (findIndex P xs))"

text \<open>
  The template literal \<^verbatim>\<open>`${n}`\<close> of a non-negative integer: its decimal digits.
\<close>

definition digitChar :: "nat \<Rightarrow> char" where
  "digitChar d = ''0123456789'' ! d"

fun toString :: "nat \<Rightarrow> string" where
  "toString n = (if n < 10 then [digitChar n] else toString (n div 10) @ [digitChar (n mod 10)])"

declare toString.simps [simp del]

text \<open>
  \<^verbatim>\<open>arrayMove\<close> is imported from the package \<^verbatim>\<open>@dnd-kit/sortable\<close>, a dependency of the
  repository: it copies the array, removes the element at \<open>fromIndex\<close> with
  \<^verbatim>\<open>splice(from, 1)\<close> and inserts it again with \<^verbatim>\<open>splice(to, 0, element)\<close>. Every other
  element keeps its relative order: the element is moved, the two are not exchanged.
  Both indices come from \<open>findIndex\<close> on the same array, so they are in range.
\<close>

definition arrayMove :: "'a list \<Rightarrow> nat \<Rightarrow> nat \<Rightarrow> 'a list" where
  "arrayMove array fromIndex toIndex =
     (let element = array ! fromIndex;
          newArray = take fromIndex array @ drop (Suc fromIndex) array
      in take toIndex newArray @ element # drop toIndex newArray)"

text \<open>\<^verbatim>\<open>photos.map((photo, index) => ({ ...photo, order: index + 1 }))\<close>\<close>

definition renumber :: "Photo list \<Rightarrow> Photo list" where
  "renumber ps = map (\<lambda>(photo, index). photo\<lparr>photo_order := index + 1\<rparr>) (zip ps [0..<length ps])"

section \<open>The rename instructions of one operation\<close>

text \<open>
  Lines 195 to 198 of \<^verbatim>\<open>handleDragEnd\<close> and 257 to 260 of \<^verbatim>\<open>handlePhotoDelete\<close>:
  \<^verbatim>\<open>const newInstructions = { ...renameInstructions };
  if (!newInstructions[sku]) { newInstructions[sku] = {}; }\<close>
  The result is the address of the sku's inner object, the new outer object, the store
  and the next unused address. An inner object that exists already is not copied.
\<close>

definition copyInstructions ::
  "AppState \<Rightarrow> string \<Rightarrow> ref \<times> RenameInstruction \<times> (ref \<Rightarrow> Instructions) \<times> ref" where
  "copyInstructions s k =
     (case renameInstructions s k of
        Some r \<Rightarrow> (r, renameInstructions s, heap s, nextRef s)
      | None \<Rightarrow>
          (nextRef s, (renameInstructions s)(k \<mapsto> nextRef s),
           (heap s)(nextRef s := Map.empty), Suc (nextRef s)))"

text \<open>
  Lines 201 and 202 of \<^verbatim>\<open>handleDragEnd\<close>, the two assignments into the inner object:
  \<^verbatim>\<open>newInstructions[activeSku][activePhoto.filename] = overPhoto.filename;
  newInstructions[activeSku][overPhoto.filename] = activePhoto.filename;\<close>
\<close>

definition swapInstructions :: "Photo \<Rightarrow> Photo \<Rightarrow> Instructions \<Rightarrow> Instructions" where
  "swapInstructions activePhoto overPhoto m =
     (m(filename activePhoto \<mapsto> filename overPhoto))(filename overPhoto \<mapsto> filename activePhoto)"

text \<open>
  Lines 269 to 278 of \<^verbatim>\<open>handlePhotoDelete\<close>, the loop over the photos after the deleted
  one; \<open>i\<close> is the loop variable and \<open>m\<close> the inner object the loop assigns into:
  \<^verbatim>\<open>for (let i = deleteIndex + 1; i < product.photos.length; i++) {
    const currentPhoto = product.photos[i];
    const newPosition = i;
    const newFilename = `${newPosition}.jpg`;
    if (currentPhoto.filename !== newFilename) {
      newInstructions[sku][currentPhoto.filename] = newFilename;
    }
  }\<close>
\<close>

function shiftLoop :: "Photo list \<Rightarrow> nat \<Rightarrow> Instructions \<Rightarrow> Instructions" where
  "shiftLoop ps i m =
     (if i < length ps then
        (let currentPhoto = ps ! i;
             newPosition = i;
             newFilename = toString newPosition @ ''.jpg''
         in shiftLoop ps (i + 1)
              (if filename currentPhoto \<noteq> newFilename
               then m(filename currentPhoto \<mapsto> newFilename) else m))
      else m)"
  by pat_completeness auto
termination
  by (relation "measure (\<lambda>(ps, i, m). length ps - i)") auto

declare shiftLoop.simps [simp del]

text \<open>
  Lines 265 to 282 of \<^verbatim>\<open>handlePhotoDelete\<close>: the loop, then the assignment for the
  deleted photo, with \<^verbatim>\<open>lastPosition = newPhotos.length\<close>:
  \<^verbatim>\<open>const deletedPhotoNewFilename = `${lastPosition + 1}.jpg`;
  newInstructions[sku][deletedPhotoFilename] = deletedPhotoNewFilename;\<close>
\<close>

definition deleteInstructions ::
  "Photo list \<Rightarrow> nat \<Rightarrow> Photo \<Rightarrow> nat \<Rightarrow> Instructions \<Rightarrow> Instructions" where
  "deleteInstructions ps deleteIndex photoToDelete lastPosition m =
     (let deletedPhotoFilename = filename photoToDelete;
          shifted = shiftLoop ps (deleteIndex + 1) m;
          deletedPhotoNewFilename = toString (lastPosition + 1) @ ''.jpg''
      in shifted(deletedPhotoFilename \<mapsto> deletedPhotoNewFilename))"

section \<open>The handlers of PhotoGrid\<close>

text \<open>
  \<^verbatim>\<open>handleDragEnd\<close> (lines 151 to 212). Every \<^verbatim>\<open>return\<close> before the first \<^verbatim>\<open>set...\<close> call
  leaves the state as it is. Saving to IndexedDB does not change the component's state.
\<close>

definition handleDragEnd :: "AppState \<Rightarrow> DragEndEvent \<Rightarrow> AppState" where
  "handleDragEnd s event =
     (case over event of
        None \<Rightarrow> s
      | Some ov \<Rightarrow>
          if item_id (active event) = item_id ov then s
          else
            let activeSku = item_sku (active event); overSku = item_sku ov in
            if activeSku \<noteq> overSku then s
            else
              (case findIndex (\<lambda>p. sku p = activeSku) (products s) of
                 None \<Rightarrow> s
               | Some productIndex \<Rightarrow>
                   let product = products s ! productIndex in
                   (case findIndex (\<lambda>p. photo_id p = item_id (active event)) (photos product) of
                      None \<Rightarrow> s
                    | Some activeIndex \<Rightarrow>
                        (case findIndex (\<lambda>p. photo_id p = item_id ov) (photos product) of
                           None \<Rightarrow> s
                         | Some overIndex \<Rightarrow>
                             let newPhotos = arrayMove (photos product) activeIndex overIndex;
                                 updatedProduct = product\<lparr>photos := renumber newPhotos\<rparr>;
                                 newProducts = (products s)[productIndex := updatedProduct];
                                 activePhoto = photos product ! activeIndex;
                                 overPhoto = photos product ! overIndex;
                                 (r, newInstructions, h, n) = copyInstructions s activeSku
                             in s\<lparr>products := newProducts,
                                  renameInstructions := newInstructions,
                                  heap := h(r := swapInstructions activePhoto overPhoto (h r)),
                                  nextRef := n\<rparr>))))"

text \<open>
  \<^verbatim>\<open>handlePhotoDelete\<close> (lines 232 to 311). \<^verbatim>\<open>find\<close> and \<^verbatim>\<open>findIndex\<close> are called with the
  same predicate, so the second cannot return \<^verbatim>\<open>-1\<close> once the first has found a photo.
\<close>

definition handlePhotoDelete :: "AppState \<Rightarrow> string \<Rightarrow> string \<Rightarrow> AppState" where
  "handlePhotoDelete s sku' photoId =
     (case findIndex (\<lambda>p. sku p = sku') (products s) of
        None \<Rightarrow> s
      | Some productIndex \<Rightarrow>
          let product = products s ! productIndex in
          (case List.find (\<lambda>p. photo_id p = photoId) (photos product) of
             None \<Rightarrow> s
           | Some photoToDelete \<Rightarrow>
               (case findIndex (\<lambda>p. photo_id p = photoId) (photos product) of
                  None \<Rightarrow> s
                | Some deleteIndex \<Rightarrow>
                    let newPhotos = filter (\<lambda>p. photo_id p \<noteq> photoId) (photos product);
                        (r, newInstructions, h, n) = copyInstructions s sku';
                        lastPosition = length newPhotos;
                        finalPhotos = renumber newPhotos;
                        updatedProduct =
                          product\<lparr>photos := finalPhotos, totalImages := length finalPhotos\<rparr>;
                        newProducts = (products s)[productIndex := updatedProduct]
                    in s\<lparr>products := newProducts,
                         renameInstructions := newInstructions,
                         heap := h(r := deleteInstructions (photos product) deleteIndex
                                          photoToDelete lastPosition (h r)),
                         nextRef := n\<rparr>)))"

text \<open>
  The rename plan of a sku as a value: what \<^verbatim>\<open>renameInstructions[sku]\<close> holds when it is
  read through the store \<open>h\<close>. \<open>plan s\<close> reads the state's own outer object in the state's
  own store; it is the value \<^verbatim>\<open>saveRenameInstructions\<close> serialises and
  \<^verbatim>\<open>exportInstructions\<close> prints.
\<close>

definition readPlan :: "RenameInstruction \<Rightarrow> (ref \<Rightarrow> Instructions) \<Rightarrow> string \<Rightarrow> Instructions option" where
  "readPlan outer h k = map_option h (outer k)"

definition plan :: "AppState \<Rightarrow> string \<Rightarrow> Instructions option" where
  "plan s = readPlan (renameInstructions s) (heap s)"

section \<open>Applying the instructions to a listing (loadProductsFromAPI, lines 66 to 93)\<close>

text \<open>
  \<^verbatim>\<open>parseInt(string)\<close> with no radix: leading white space is skipped, a sign is read, a
  prefix \<^verbatim>\<open>0x\<close> selects base 16, and the longest prefix of digits is the value; with no
  digit the result is \<^verbatim>\<open>NaN\<close>, which is \<open>None\<close> here. Strings are byte strings, so only
  the white space of ASCII is recognised, and the value is the exact integer: the
  rounding of a value beyond \<open>2\<^sup>5\<^sup>3\<close> to a double is not modelled.
\<close>

definition isWhiteSpace :: "char \<Rightarrow> bool" where
  "isWhiteSpace c = (c \<in> set [CHR 0x09, CHR 0x0A, CHR 0x0B, CHR 0x0C, CHR 0x0D, CHR 0x20])"

definition digitValue :: "char \<Rightarrow> nat option" where
  "digitValue = map_of
     [(CHR ''0'', 0), (CHR ''1'', 1), (CHR ''2'', 2), (CHR ''3'', 3), (CHR ''4'', 4),
      (CHR ''5'', 5), (CHR ''6'', 6), (CHR ''7'', 7), (CHR ''8'', 8), (CHR ''9'', 9),
      (CHR ''a'', 10), (CHR ''b'', 11), (CHR ''c'', 12), (CHR ''d'', 13), (CHR ''e'', 14),
      (CHR ''f'', 15), (CHR ''A'', 10), (CHR ''B'', 11), (CHR ''C'', 12), (CHR ''D'', 13),
      (CHR ''E'', 14), (CHR ''F'', 15)]"

definition isRadixDigit :: "nat \<Rightarrow> char \<Rightarrow> bool" where
  "isRadixDigit R c = (case digitValue c of None \<Rightarrow> False | Some d \<Rightarrow> d < R)"

definition radixValue :: "nat \<Rightarrow> string \<Rightarrow> nat" where
  "radixValue R Z =
     foldl (\<lambda>acc c. acc * R + (case digitValue c of None \<Rightarrow> 0 | Some d \<Rightarrow> d)) 0 Z"

definition parseInt :: "string \<Rightarrow> int option" where
  "parseInt inputString =
     (let S = dropWhile isWhiteSpace inputString;
          sign = (if take 1 S = ''-'' then - 1 else 1);
          S1 = (if take 1 S = ''+'' \<or> take 1 S = ''-'' then drop 1 S else S);
          hex = (take 2 S1 = ''0x'' \<or> take 2 S1 = ''0X'');
          R = (if hex then 16 else 10);
          S2 = (if hex then drop 2 S1 else S1);
          Z = takeWhile (isRadixDigit R) S2
      in if Z = [] then None else Some (sign * int (radixValue R Z)))"

text \<open>\<^verbatim>\<open>filename.split('.')[0]\<close>: the part of the name before its first dot.\<close>

definition beforeDot :: "string \<Rightarrow> string" where
  "beforeDot name = takeWhile (\<lambda>c. c \<noteq> CHR ''.'') name"

text \<open>
  The comparator of the sort, \<^verbatim>\<open>aNum - bNum\<close>. The difference is \<^verbatim>\<open>NaN\<close> when one of the
  numbers is, and \<^verbatim>\<open>Array.prototype.sort\<close> reads a \<^verbatim>\<open>NaN\<close> from its comparator as \<open>0\<close>.
\<close>

definition compareFn :: "Photo \<Rightarrow> Photo \<Rightarrow> int" where
  "compareFn a b =
     (case (parseInt (beforeDot (filename a)), parseInt (beforeDot (filename b))) of
        (Some aNum, Some bNum) \<Rightarrow> aNum - bNum
      | _ \<Rightarrow> 0)"

text \<open>
  \<^verbatim>\<open>Array.prototype.sort\<close> is stable. It is modelled as an insertion sort that keeps
  elements the comparator calls equal in their order. When every name has a number this
  is the order every engine returns; with a \<^verbatim>\<open>NaN\<close> among the keys the comparator is not
  consistent and the language leaves the order to the engine.
\<close>

fun insertPhoto :: "Photo \<Rightarrow> Photo list \<Rightarrow> Photo list" where
  "insertPhoto x [] = [x]"
| "insertPhoto x (y # ys) = (if compareFn x y \<le> 0 then x # y # ys else y # insertPhoto x ys)"

definition sortPhotos :: "Photo list \<Rightarrow> Photo list" where
  "sortPhotos ps = foldr insertPhoto ps []"

text \<open>
  Line 72: \<^verbatim>\<open>productInstructions[photo.filename] || photo.filename\<close>. An entry whose new
  name is the empty string is falsy and is ignored.
\<close>

definition newFilenameOf :: "Instructions \<Rightarrow> string \<Rightarrow> string" where
  "newFilenameOf productInstructions name =
     (case productInstructions name of
        None \<Rightarrow> name
      | Some newName \<Rightarrow> if newName = [] then name else newName)"

text \<open>
  Lines 66 to 93, the function mapped over the products of the listing. \<open>instructions\<close>
  is the value read from IndexedDB, an object of objects of its own.
\<close>

definition applyInstructions :: "(string \<Rightarrow> Instructions option) \<Rightarrow> Product \<Rightarrow> Product" where
  "applyInstructions instructions product =
     (case instructions (sku product) of
        None \<Rightarrow> product
      | Some productInstructions \<Rightarrow>
          let updatedPhotos =
                map (\<lambda>photo. photo\<lparr>filename := newFilenameOf productInstructions (filename photo)\<rparr>)
                  (photos product);
              reorderedPhotos = renumber (sortPhotos updatedPhotos)
          in product\<lparr>photos := reorderedPhotos\<rparr>)"

section \<open>Reading a plan\<close>

text \<open>
  \<open>planOrEmpty\<close> is the inner object the handlers assign into: \<^verbatim>\<open>renameInstructions[sku]\<close>
  when it exists, the \<^verbatim>\<open>{}\<close> of line 197 or 259 otherwise. \<open>lookupPlan\<close> is
  \<^verbatim>\<open>renameInstructions[sku]?.[name]\<close>.
\<close>

definition planOrEmpty :: "AppState \<Rightarrow> string \<Rightarrow> Instructions" where
  "planOrEmpty s k = (case plan s k of None \<Rightarrow> Map.empty | Some m \<Rightarrow> m)"

definition lookupPlan :: "AppState \<Rightarrow> string \<Rightarrow> string \<Rightarrow> string option" where
  "lookupPlan s k name = (case plan s k of None \<Rightarrow> None | Some m \<Rightarrow> m name)"

section \<open>Listings as the products API returns them\<close>

text \<open>
  Lines 55 to 67 of \<^verbatim>\<open>api/products/route.ts\<close>: the product built from the files of one
  directory, which the route has filtered by extension (\<^verbatim>\<open>.jpg\<close>, \<^verbatim>\<open>.jpeg\<close>, \<^verbatim>\<open>.png\<close>,
  \<^verbatim>\<open>.webp\<close>) and sorted by number:
  \<^verbatim>\<open>files.map((filename, index) => ({ id: `${sku}-${index + 1}`, filename: filename,
    path: `/photos/products/${sku}/${filename}`, order: index + 1 }))\<close>
\<close>

definition apiProduct :: "string \<Rightarrow> string list \<Rightarrow> Product" where
  "apiProduct k files =
     (let ps = map (\<lambda>(file, index).
                  \<lparr>photo_id = k @ ''-'' @ toString (index + 1), filename = file,
                   path = ''/photos/products/'' @ k @ ''/'' @ file, photo_order = index + 1\<rparr>)
                (zip files [0..<length files])
      in \<lparr>sku = k, photos = ps, totalImages = length ps\<rparr>)"

text \<open>
  The state after \<^verbatim>\<open>loadProductsFromAPI\<close> when IndexedDB holds no instructions:
  \<^verbatim>\<open>getRenameInstructions\<close> resolves to \<^verbatim>\<open>{}\<close> and every product is kept as the API
  returned it.
\<close>

definition loadedState :: "Product list \<Rightarrow> AppState" where
  "loadedState ps =
     \<lparr>products = ps, renameInstructions = Map.empty, heap = (\<lambda>r. Map.empty), nextRef = 0\<rparr>"

text \<open>The event of dropping photo \<open>a\<close> on photo \<open>b\<close>, both of the sku \<open>k\<close>.\<close>

definition dropOn :: "string \<Rightarrow> string \<Rightarrow> string \<Rightarrow> DragEndEvent" where
  "dropOn k a b =
     \<lparr>active = \<lparr>item_id = a, item_sku = k\<rparr>, over = Some \<lparr>item_id = b, item_sku = k\<rparr>\<rparr>"

section \<open>Reading a plan through a given store\<close>

text \<open>
  \<open>lookupIn outer h k name\<close> is \<^verbatim>\<open>outer[k]?.[name]\<close> when the inner objects are read in the
  store \<open>h\<close>: with the outer object of an earlier state and the store of a later one, it
  is what a holder of the earlier value of \<^verbatim>\<open>renameInstructions\<close> reads later.
\<close>

definition lookupIn :: "RenameInstruction \<Rightarrow> (ref \<Rightarrow> Instructions) \<Rightarrow> string \<Rightarrow> string \<Rightarrow> string option" where
  "lookupIn outer h k name = (case readPlan outer h k of None \<Rightarrow> None | Some m \<Rightarrow> m name)"

section \<open>Loading the products again\<close>


section \<open>Sessions on the collection s\<close>

text \<open>
  The collection \<^verbatim>\<open>s\<close> with the files \<^verbatim>\<open>1.jpg\<close>, \<^verbatim>\<open>2.jpg\<close> (and \<^verbatim>\<open>3.jpg\<close>) as the API lists
  it; the ids of its photos are \<^verbatim>\<open>s-1\<close>, \<^verbatim>\<open>s-2\<close> (and \<^verbatim>\<open>s-3\<close>).
\<close>

definition listing12 :: Product where
  "listing12 = apiProduct ''s'' [''1.jpg'', ''2.jpg'']"

definition listing123 :: Product where
  "listing123 = apiProduct ''s'' [''1.jpg'', ''2.jpg'', ''3.jpg'']"

text \<open>Photo \<^verbatim>\<open>s-1\<close> is dropped on photo \<^verbatim>\<open>s-2\<close> in the freshly loaded collection.\<close>

definition swapped12 :: AppState where
  "swapped12 = handleDragEnd (loadedState [listing123]) (dropOn ''s'' ''s-1'' ''s-2'')"

text \<open>After that, photo \<^verbatim>\<open>s-1\<close> is dropped on photo \<^verbatim>\<open>s-3\<close> in the same session.\<close>

definition movedTwice :: AppState where
  "movedTwice = handleDragEnd swapped12 (dropOn ''s'' ''s-1'' ''s-3'')"



text \<open>
  In the collection of two photos, photo \<^verbatim>\<open>s-1\<close> is dropped on photo \<^verbatim>\<open>s-2\<close>, and then
  dropped on it once more, which puts the two photos back in their first order.
\<close>

definition swappedBack :: AppState where
  "swappedBack =
     handleDragEnd (handleDragEnd (loadedState [listing12]) (dropOn ''s'' ''s-1'' ''s-2''))
       (dropOn ''s'' ''s-1'' ''s-2'')"




section \<open>Facts about the library functions\<close>

lemma findIndex_None_iff: "findIndex P xs = None \<longleftrightarrow> (\<forall>x\<in>set xs. \<not> P x)"
  by (induction xs) auto

lemma findIndex_SomeD:
  "findIndex P xs = Some i \<Longrightarrow> i < length xs \<and> P (xs ! i) \<and> (\<forall>j<i. \<not> P (xs ! j))"
proof (induction xs arbitrary: i)
  case Nil
  then show ?case by simp
next
  case (Cons x xs)
  show ?case
  proof (cases "P x")
    case True
    with Cons.prems show ?thesis by simp
  next
    case False
    with Cons.prems obtain k where k: "findIndex P xs = Some k" "i = Suc k" by auto
    from Cons.IH[OF k(1)] False k(2) show ?thesis
      by (auto simp: less_Suc_eq_0_disj)
  qed
qed

lemma find_findIndex:
  "List.find P xs = (case findIndex P xs of None \<Rightarrow> None | Some i \<Rightarrow> Some (xs ! i))"
  by (induction xs) (auto split: option.splits)

section \<open>The handlers on an operation they accept\<close>

lemma handleDragEnd_accepted:
  assumes "over event = Some ov"
    and "item_id (active event) \<noteq> item_id ov"
    and "item_sku (active event) = item_sku ov"
    and "findIndex (\<lambda>p. sku p = item_sku (active event)) (products s) = Some productIndex"
    and "findIndex (\<lambda>p. photo_id p = item_id (active event)) (photos (products s ! productIndex))
           = Some activeIndex"
    and "findIndex (\<lambda>p. photo_id p = item_id ov) (photos (products s ! productIndex))
           = Some overIndex"
  shows "handleDragEnd s event =
    (let product = products s ! productIndex;
         (r, newInstructions, h, n) = copyInstructions s (item_sku (active event))
     in s\<lparr>products := (products s)[productIndex :=
              product\<lparr>photos := renumber (arrayMove (photos product) activeIndex overIndex)\<rparr>],
          renameInstructions := newInstructions,
          heap := h(r := swapInstructions (photos product ! activeIndex)
                           (photos product ! overIndex) (h r)),
          nextRef := n\<rparr>)"
  using assms by (simp add: handleDragEnd_def Let_def)

lemma handlePhotoDelete_accepted:
  assumes "findIndex (\<lambda>p. sku p = k) (products s) = Some productIndex"
    and "findIndex (\<lambda>p. photo_id p = photoId) (photos (products s ! productIndex))
           = Some deleteIndex"
  shows "handlePhotoDelete s k photoId =
    (let product = products s ! productIndex;
         newPhotos = filter (\<lambda>p. photo_id p \<noteq> photoId) (photos product);
         (r, newInstructions, h, n) = copyInstructions s k
     in s\<lparr>products := (products s)[productIndex :=
              product\<lparr>photos := renumber newPhotos, totalImages := length (renumber newPhotos)\<rparr>],
          renameInstructions := newInstructions,
          heap := h(r := deleteInstructions (photos product) deleteIndex
                           (photos product ! deleteIndex) (length newPhotos) (h r)),
          nextRef := n\<rparr>)"
  using assms by (simp add: handlePhotoDelete_def Let_def find_findIndex)

lemma plan_after_copy:
  "copyInstructions s k = (r, newInstructions, h, n) \<Longrightarrow>
   readPlan newInstructions (h(r := w (h r))) k = Some (w (planOrEmpty s k))"
  by (auto simp: copyInstructions_def readPlan_def planOrEmpty_def plan_def split: option.splits)

lemma plan_handleDragEnd:
  assumes "over event = Some ov"
    and "item_id (active event) \<noteq> item_id ov"
    and "item_sku (active event) = item_sku ov"
    and "findIndex (\<lambda>p. sku p = item_sku (active event)) (products s) = Some productIndex"
    and "findIndex (\<lambda>p. photo_id p = item_id (active event)) (photos (products s ! productIndex))
           = Some activeIndex"
    and "findIndex (\<lambda>p. photo_id p = item_id ov) (photos (products s ! productIndex))
           = Some overIndex"
  shows "plan (handleDragEnd s event) (item_sku (active event)) =
    Some (swapInstructions (photos (products s ! productIndex) ! activeIndex)
            (photos (products s ! productIndex) ! overIndex)
            (planOrEmpty s (item_sku (active event))))"
proof -
  obtain r newInstructions h n
    where c: "copyInstructions s (item_sku (active event)) = (r, newInstructions, h, n)"
    by (cases "copyInstructions s (item_sku (active event))") auto
  show ?thesis
    unfolding handleDragEnd_accepted[OF assms]
    using plan_after_copy[OF c] by (simp add: c plan_def Let_def)
qed

lemma plan_handlePhotoDelete:
  assumes "findIndex (\<lambda>p. sku p = k) (products s) = Some productIndex"
    and "findIndex (\<lambda>p. photo_id p = photoId) (photos (products s ! productIndex))
           = Some deleteIndex"
  shows "plan (handlePhotoDelete s k photoId) k =
    Some (deleteInstructions (photos (products s ! productIndex)) deleteIndex
            (photos (products s ! productIndex) ! deleteIndex)
            (length (filter (\<lambda>p. photo_id p \<noteq> photoId) (photos (products s ! productIndex))))
            (planOrEmpty s k))"
proof -
  obtain r newInstructions h n
    where c: "copyInstructions s k = (r, newInstructions, h, n)"
    by (cases "copyInstructions s k") auto
  show ?thesis
    unfolding handlePhotoDelete_accepted[OF assms]
    using plan_after_copy[OF c] by (simp add: c plan_def Let_def)
qed

lemma photos_handlePhotoDelete:
  assumes "findIndex (\<lambda>p. sku p = k) (products s) = Some productIndex"
    and "findIndex (\<lambda>p. photo_id p = photoId) (photos (products s ! productIndex))
           = Some deleteIndex"
  shows "photos (products (handlePhotoDelete s k photoId) ! productIndex) =
    renumber (filter (\<lambda>p. photo_id p \<noteq> photoId) (photos (products s ! productIndex)))"
proof -
  obtain r newInstructions h n
    where c: "copyInstructions s k = (r, newInstructions, h, n)"
    by (cases "copyInstructions s k") auto
  from findIndex_SomeD[OF assms(1)] have "productIndex < length (products s)" by simp
  then show ?thesis
    unfolding handlePhotoDelete_accepted[OF assms]
    by (simp add: c Let_def)
qed

section \<open>The loop of handlePhotoDelete\<close>










section \<open>Rejected operations\<close>

text \<open>
  Claim C8. A drag or a delete that names something the current state does not hold is
  rejected and nothing changes: the state returned is the state given, products, rename
  instructions and store of inner objects alike. The cases are a drop outside every
  target, a target in another collection, a collection that is not among the products,
  an active or target photo that is not in the collection, and a delete of an unknown
  collection or of a photo that is not in the collection.
\<close>

theorem invalid_operation_rejected:
  "(over event = None \<longrightarrow> handleDragEnd s event = s) \<and>
   (over event = Some ov \<and> item_sku (active event) \<noteq> item_sku ov \<longrightarrow> handleDragEnd s event = s) \<and>
   (over event = Some ov \<and> item_sku (active event) \<notin> sku ` set (products s)
      \<longrightarrow> handleDragEnd s event = s) \<and>
   (over event = Some ov \<and>
    findIndex (\<lambda>p. sku p = item_sku (active event)) (products s) = Some productIndex \<and>
    (item_id (active event) \<notin> photo_id ` set (photos (products s ! productIndex)) \<or>
     item_id ov \<notin> photo_id ` set (photos (products s ! productIndex)))
      \<longrightarrow> handleDragEnd s event = s) \<and>
   (k \<notin> sku ` set (products s) \<longrightarrow> handlePhotoDelete s k photoId = s) \<and>
   (findIndex (\<lambda>p. sku p = k) (products s) = Some productIndex' \<and>
    photoId \<notin> photo_id ` set (photos (products s ! productIndex'))
      \<longrightarrow> handlePhotoDelete s k photoId = s)"
proof (intro conjI impI)
  assume "over event = None"
  then show "handleDragEnd s event = s" by (simp add: handleDragEnd_def)
next
  assume "over event = Some ov \<and> item_sku (active event) \<noteq> item_sku ov"
  then show "handleDragEnd s event = s" by (simp add: handleDragEnd_def)
next
  assume a: "over event = Some ov \<and> item_sku (active event) \<notin> sku ` set (products s)"
  then have "findIndex (\<lambda>p. sku p = item_sku (active event)) (products s) = None"
    by (auto simp: findIndex_None_iff image_iff)
  with a show "handleDragEnd s event = s" by (auto simp: handleDragEnd_def Let_def)
next
  assume a: "over event = Some ov \<and>
    findIndex (\<lambda>p. sku p = item_sku (active event)) (products s) = Some productIndex \<and>
    (item_id (active event) \<notin> photo_id ` set (photos (products s ! productIndex)) \<or>
     item_id ov \<notin> photo_id ` set (photos (products s ! productIndex)))"
  then have "findIndex (\<lambda>p. photo_id p = item_id (active event))
        (photos (products s ! productIndex)) = None
     \<or> findIndex (\<lambda>p. photo_id p = item_id ov) (photos (products s ! productIndex)) = None"
    by (auto simp: findIndex_None_iff image_iff)
  with a show "handleDragEnd s event = s"
    by (auto simp: handleDragEnd_def Let_def split: option.splits)
next
  assume "k \<notin> sku ` set (products s)"
  then have "findIndex (\<lambda>p. sku p = k) (products s) = None"
    by (auto simp: findIndex_None_iff image_iff)
  then show "handlePhotoDelete s k photoId = s" by (simp add: handlePhotoDelete_def)
next
  assume a: "findIndex (\<lambda>p. sku p = k) (products s) = Some productIndex' \<and>
    photoId \<notin> photo_id ` set (photos (products s ! productIndex'))"
  then have "findIndex (\<lambda>p. photo_id p = photoId) (photos (products s ! productIndex')) = None"
    by (auto simp: findIndex_None_iff image_iff)
  with a show "handlePhotoDelete s k photoId = s"
    by (simp add: handlePhotoDelete_def Let_def find_findIndex)
qed

theorem invalid_operation_rejected_witness:
  "handleDragEnd (loadedState [apiProduct ''a'' [''1.jpg'', ''2.jpg'']])
     \<lparr>active = \<lparr>item_id = ''a-1'', item_sku = ''a''\<rparr>, over = None\<rparr>
     = loadedState [apiProduct ''a'' [''1.jpg'', ''2.jpg'']] \<and>
   handleDragEnd (loadedState [apiProduct ''a'' [''1.jpg'', ''2.jpg'']]) (dropOn ''a'' ''a-1'' ''a-9'')
     = loadedState [apiProduct ''a'' [''1.jpg'', ''2.jpg'']] \<and>
   handlePhotoDelete (loadedState [apiProduct ''a'' [''1.jpg'', ''2.jpg'']]) ''b'' ''a-1''
     = loadedState [apiProduct ''a'' [''1.jpg'', ''2.jpg'']] \<and>
   handlePhotoDelete (loadedState [apiProduct ''a'' [''1.jpg'', ''2.jpg'']]) ''a'' ''a-9''
     = loadedState [apiProduct ''a'' [''1.jpg'', ''2.jpg'']] \<and>
   handleDragEnd (loadedState [apiProduct ''a'' [''1.jpg'', ''2.jpg'']])
     \<lparr>active = \<lparr>item_id = ''a-1'', item_sku = ''a''\<rparr>,
      over = Some \<lparr>item_id = ''b-1'', item_sku = ''b''\<rparr>\<rparr>
     = loadedState [apiProduct ''a'' [''1.jpg'', ''2.jpg'']] \<and>
   handleDragEnd (loadedState [apiProduct ''a'' [''1.jpg'', ''2.jpg'']]) (dropOn ''b'' ''b-1'' ''b-2'')
     = loadedState [apiProduct ''a'' [''1.jpg'', ''2.jpg'']]"
proof -
  let ?s = "loadedState [apiProduct ''a'' [''1.jpg'', ''2.jpg'']]"
  have i: "findIndex (\<lambda>p. sku p = ''a'') (products ?s) = Some 0" by code_simp
  have n: "''a-9'' \<notin> photo_id ` set (photos (products ?s ! 0))" by code_simp
  have b: "''b'' \<notin> sku ` set (products ?s)" by code_simp
  note th = invalid_operation_rejected
  have 1: "handleDragEnd ?s \<lparr>active = \<lparr>item_id = ''a-1'', item_sku = ''a''\<rparr>, over = None\<rparr> = ?s"
    using th[of "\<lparr>active = \<lparr>item_id = ''a-1'', item_sku = ''a''\<rparr>, over = None\<rparr>" ?s] by simp
  have 2: "handleDragEnd ?s (dropOn ''a'' ''a-1'' ''a-9'') = ?s"
    using th[of "dropOn ''a'' ''a-1'' ''a-9''" ?s "\<lparr>item_id = ''a-9'', item_sku = ''a''\<rparr>" 0] i n
    by (simp add: dropOn_def)
  have 3: "handlePhotoDelete ?s ''b'' ''a-1'' = ?s"
    using th[of _ ?s _ _ "''b''" "''a-1''"] b by simp
  have 4: "handlePhotoDelete ?s ''a'' ''a-9'' = ?s"
    using th[of _ ?s _ _ "''a''" "''a-9''" 0] i n by simp
  have 5: "handleDragEnd ?s \<lparr>active = \<lparr>item_id = ''a-1'', item_sku = ''a''\<rparr>,
      over = Some \<lparr>item_id = ''b-1'', item_sku = ''b''\<rparr>\<rparr> = ?s"
    using th[of "\<lparr>active = \<lparr>item_id = ''a-1'', item_sku = ''a''\<rparr>,
      over = Some \<lparr>item_id = ''b-1'', item_sku = ''b''\<rparr>\<rparr>" ?s
      "\<lparr>item_id = ''b-1'', item_sku = ''b''\<rparr>"] by simp
  have 6: "handleDragEnd ?s (dropOn ''b'' ''b-1'' ''b-2'') = ?s"
    using th[of "dropOn ''b'' ''b-1'' ''b-2''" ?s "\<lparr>item_id = ''b-2'', item_sku = ''b''\<rparr>"] b
    by (simp add: dropOn_def)
  from 1 2 3 4 5 6 show ?thesis by simp
qed

section \<open>Facts about the instructions of a delete\<close>

lemma length_renumber: "length (renumber ps) = length ps"
  by (simp add: renumber_def)

lemma length_filter_others:
  "distinct (map f xs) \<Longrightarrow> i < length xs \<Longrightarrow>
   length (filter (\<lambda>x. f x \<noteq> f (xs ! i)) xs) + 1 = length xs"
proof (induction xs arbitrary: i)
  case Nil
  then show ?case by simp
next
  case (Cons x xs)
  show ?case
  proof (cases i)
    case 0
    from Cons.prems have "\<forall>y\<in>set xs. f y \<noteq> f x" by (auto simp: image_iff)
    then have "filter (\<lambda>y. f y \<noteq> f x) xs = xs" by (simp add: filter_id_conv)
    with 0 show ?thesis by simp
  next
    case (Suc j)
    with Cons.prems have j: "j < length xs" and d: "distinct (map f xs)" by auto
    from Cons.prems j have "f x \<noteq> f (xs ! j)" by auto
    with Cons.IH[OF d j] Suc show ?thesis by simp
  qed
qed

lemma lookup_handlePhotoDelete:
  assumes "findIndex (\<lambda>p. sku p = k) (products s) = Some productIndex"
    and "findIndex (\<lambda>p. photo_id p = photoId) (photos (products s ! productIndex))
           = Some deleteIndex"
  shows "lookupPlan (handlePhotoDelete s k photoId) k name =
    deleteInstructions (photos (products s ! productIndex)) deleteIndex
            (photos (products s ! productIndex) ! deleteIndex)
            (length (filter (\<lambda>p. photo_id p \<noteq> photoId) (photos (products s ! productIndex))))
            (planOrEmpty s k) name"
  by (simp add: lookupPlan_def plan_handlePhotoDelete[OF assms])









section \<open>The name given to the deleted photo\<close>

text \<open>
  Claim C5, as amended. An accepted delete gives the deleted photo the name of position
  \<open>N + 1\<close>, where \<open>N\<close> is the number of photos left after the removal: line 281 writes
  \<^verbatim>\<open>`${lastPosition + 1}.jpg`\<close> with \<^verbatim>\<open>lastPosition = newPhotos.length\<close>. When the ids of the
  collection are distinct, \<open>N + 1\<close> is the number of photos before the delete. The
  statement is about a deleted photo that does not have that name already.
\<close>

theorem deleted_item_named_by_count_before:
  assumes "findIndex (\<lambda>p. sku p = k) (products s) = Some productIndex"
    and "findIndex (\<lambda>p. photo_id p = photoId) (photos (products s ! productIndex))
           = Some deleteIndex"
  shows "(filename (photos (products s ! productIndex) ! deleteIndex)
            \<noteq> toString (length (photos (products (handlePhotoDelete s k photoId) ! productIndex)) + 1)
                @ ''.jpg'' \<longrightarrow>
          lookupPlan (handlePhotoDelete s k photoId) k
            (filename (photos (products s ! productIndex) ! deleteIndex))
          = Some (toString (length (photos (products (handlePhotoDelete s k photoId) ! productIndex)) + 1)
                 @ ''.jpg''))
       \<and> (distinct (map photo_id (photos (products s ! productIndex))) \<longrightarrow>
            length (photos (products (handlePhotoDelete s k photoId) ! productIndex)) + 1
            = length (photos (products s ! productIndex)))"
proof (intro conjI impI)
  show "lookupPlan (handlePhotoDelete s k photoId) k
           (filename (photos (products s ! productIndex) ! deleteIndex))
         = Some (toString (length (photos (products (handlePhotoDelete s k photoId) ! productIndex)) + 1)
                 @ ''.jpg'')"
    by (simp add: lookup_handlePhotoDelete[OF assms] photos_handlePhotoDelete[OF assms]
        length_renumber deleteInstructions_def Let_def)
next
  assume d: "distinct (map photo_id (photos (products s ! productIndex)))"
  from findIndex_SomeD[OF assms(2)]
  have i: "deleteIndex < length (photos (products s ! productIndex))"
    and p: "photoId = photo_id (photos (products s ! productIndex) ! deleteIndex)" by auto
  from length_filter_others[OF d i] p
  have "length (filter (\<lambda>x. photo_id x \<noteq> photoId) (photos (products s ! productIndex))) + 1
        = length (photos (products s ! productIndex))" by simp
  then show "length (photos (products (handlePhotoDelete s k photoId) ! productIndex)) + 1
            = length (photos (products s ! productIndex))"
    by (simp add: photos_handlePhotoDelete[OF assms] length_renumber)
qed

text \<open>The theorem at a listing of three photos, the first of which is deleted.\<close>

theorem deleted_item_named_by_count_before_witness:
  "findIndex (\<lambda>p. sku p = ''s'')
     (products (loadedState [apiProduct ''s'' [''1.jpg'', ''2.jpg'', ''3.jpg'']])) = Some 0
   \<and> findIndex (\<lambda>p. photo_id p = ''s-1'')
     (photos (products (loadedState [apiProduct ''s'' [''1.jpg'', ''2.jpg'', ''3.jpg'']]) ! 0)) = Some 0
   \<and> lookupPlan (handlePhotoDelete
        (loadedState [apiProduct ''s'' [''1.jpg'', ''2.jpg'', ''3.jpg'']]) ''s'' ''s-1'')
        ''s'' ''1.jpg'' = Some ''3.jpg''
   \<and> length (photos (products (handlePhotoDelete
        (loadedState [apiProduct ''s'' [''1.jpg'', ''2.jpg'', ''3.jpg'']]) ''s'' ''s-1'') ! 0)) + 1 = 3"
proof -
  let ?s = "loadedState [apiProduct ''s'' [''1.jpg'', ''2.jpg'', ''3.jpg'']]"
  let ?ps = "photos (products ?s ! 0)"
  have p: "findIndex (\<lambda>p. sku p = ''s'') (products ?s) = Some 0" by code_simp
  have d: "findIndex (\<lambda>p. photo_id p = ''s-1'') ?ps = Some 0" by code_simp
  have i: "distinct (map photo_id ?ps)" by code_simp
  have n: "length ?ps = 3" "filename (?ps ! 0) = ''1.jpg''" by code_simp+
  have t: "toString 3 @ ''.jpg'' = ''3.jpg''" by code_simp
  note th = deleted_item_named_by_count_before[OF p d]
  from th[THEN conjunct2, rule_format, OF i]
  have l: "length (photos (products (handlePhotoDelete ?s ''s'' ''s-1'') ! 0)) + 1 = 3"
    by (simp add: n)
  have "filename (?ps ! 0)
      \<noteq> toString (length (photos (products (handlePhotoDelete ?s ''s'' ''s-1'') ! 0)) + 1) @ ''.jpg''"
    using l by (simp add: n t)
  from th[THEN conjunct1, rule_format, OF this] l
  have "lookupPlan (handlePhotoDelete ?s ''s'' ''s-1'') ''s'' ''1.jpg'' = Some ''3.jpg''"
    by (simp add: n t)
  with p d l show ?thesis by simp
qed

text \<open>
  Claim C5 as the specification states it fails: with three photos, deleting the first
  leaves \<open>N = 2\<close> photos, the name of position \<open>N\<close> is \<^verbatim>\<open>2.jpg\<close>, and the deleted photo is
  given \<^verbatim>\<open>3.jpg\<close>.
\<close>

theorem deleted_item_named_by_count_after_counterexample:
  "lookupPlan (handlePhotoDelete (loadedState [apiProduct ''s'' [''1.jpg'', ''2.jpg'', ''3.jpg'']])
       ''s'' ''s-1'') ''s'' ''1.jpg'' = Some ''3.jpg''
   \<and> length (photos (products (handlePhotoDelete
        (loadedState [apiProduct ''s'' [''1.jpg'', ''2.jpg'', ''3.jpg'']]) ''s'' ''s-1'') ! 0)) = 2
   \<and> toString 2 @ ''.jpg'' = ''2.jpg''"
  by code_simp

section \<open>The photos after the deleted one\<close>




section \<open>Entries that rename a file to its own name\<close>

text \<open>
  Claim C7 fails on the code. Deleting the last of three photos writes the entry
  \<^verbatim>\<open>3.jpg\<close> \<open>\<mapsto>\<close> \<^verbatim>\<open>3.jpg\<close>: the loop guards its assignment with
  \<^verbatim>\<open>currentPhoto.filename !== newFilename\<close>, the assignment for the deleted photo on line
  282 has no such guard.
\<close>

theorem delete_last_records_noop_entry:
  "lookupPlan (handlePhotoDelete (loadedState [apiProduct ''s'' [''1.jpg'', ''2.jpg'', ''3.jpg'']])
       ''s'' ''s-3'') ''s'' ''3.jpg'' = Some ''3.jpg''"
  by code_simp

section \<open>The extension of the new names\<close>




section \<open>Facts about the instructions of a drag\<close>


lemma products_handleDragEnd:
  assumes "over event = Some ov"
    and "item_id (active event) \<noteq> item_id ov"
    and "item_sku (active event) = item_sku ov"
    and "findIndex (\<lambda>p. sku p = item_sku (active event)) (products s) = Some productIndex"
    and "findIndex (\<lambda>p. photo_id p = item_id (active event)) (photos (products s ! productIndex))
           = Some activeIndex"
    and "findIndex (\<lambda>p. photo_id p = item_id ov) (photos (products s ! productIndex))
           = Some overIndex"
  shows "products (handleDragEnd s event) =
    (products s)[productIndex := (products s ! productIndex)
       \<lparr>photos := renumber (arrayMove (photos (products s ! productIndex)) activeIndex overIndex)\<rparr>]"
proof -
  obtain r newInstructions h n
    where c: "copyInstructions s (item_sku (active event)) = (r, newInstructions, h, n)"
    by (cases "copyInstructions s (item_sku (active event))") auto
  show ?thesis
    unfolding handleDragEnd_accepted[OF assms] by (simp add: c Let_def)
qed

lemma findIndex_update:
  "findIndex P xs = Some i \<Longrightarrow> P y \<Longrightarrow> findIndex P (xs[i := y]) = Some i"
proof (induction xs arbitrary: i)
  case Nil
  then show ?case by simp
next
  case (Cons x xs)
  then show ?case by (cases i) (auto split: if_splits)
qed

lemma set_arrayMove: "i < length xs \<Longrightarrow> set (arrayMove xs i j) = set xs"
proof -
  assume i: "i < length xs"
  let ?rest = "take i xs @ drop (Suc i) xs"
  have "set (arrayMove xs i j) = insert (xs ! i) (set (take j ?rest @ drop j ?rest))"
    unfolding arrayMove_def Let_def by (simp only: set_append set_simps) auto
  also have "\<dots> = insert (xs ! i) (set ?rest)" by (simp only: append_take_drop_id)
  also have "\<dots> = set (take i xs @ xs ! i # drop (Suc i) xs)" by auto
  also have "\<dots> = set xs" using i by (simp only: id_take_nth_drop[symmetric])
  finally show ?thesis .
qed

lemma renumber_nth:
  "i < length ps \<Longrightarrow> photo_id (renumber ps ! i) = photo_id (ps ! i) \<and>
     filename (renumber ps ! i) = filename (ps ! i)"
  by (simp add: renumber_def)

lemma findIndex_after_move:
  assumes d: "distinct (map photo_id ps)"
    and f: "findIndex (\<lambda>p. photo_id p = a) ps = Some i"
    and m: "from < length ps"
  shows "\<exists>i'. findIndex (\<lambda>p. photo_id p = a) (renumber (arrayMove ps from to)) = Some i' \<and>
              filename (renumber (arrayMove ps from to) ! i') = filename (ps ! i)"
proof -
  let ?qs = "arrayMove ps from to"
  from findIndex_SomeD[OF f] have i: "i < length ps" "photo_id (ps ! i) = a" by auto
  then have "ps ! i \<in> set ?qs" using set_arrayMove[OF m, of to] by simp
  then obtain j where j: "j < length ?qs" "?qs ! j = ps ! i" by (auto simp: in_set_conv_nth)
  then have "photo_id (renumber ?qs ! j) = a" using i renumber_nth[of j ?qs] by simp
  moreover have "renumber ?qs ! j \<in> set (renumber ?qs)"
    using j by (intro nth_mem) (simp add: length_renumber)
  ultimately have "findIndex (\<lambda>p. photo_id p = a) (renumber ?qs) \<noteq> None"
    by (auto simp: findIndex_None_iff)
  then obtain i' where i': "findIndex (\<lambda>p. photo_id p = a) (renumber ?qs) = Some i'" by auto
  from findIndex_SomeD[OF i'] have l: "i' < length ?qs" "photo_id (renumber ?qs ! i') = a"
    by (auto simp: length_renumber)
  then have "photo_id (?qs ! i') = a" using renumber_nth[of i' ?qs] by simp
  moreover from l have "?qs ! i' \<in> set ps" using set_arrayMove[OF m, of to] nth_mem by blast
  moreover from i have "ps ! i \<in> set ps" by simp
  ultimately have "?qs ! i' = ps ! i"
    using d i by (auto simp: distinct_map inj_on_def)
  with l renumber_nth[of i' ?qs] have "filename (renumber ?qs ! i') = filename (ps ! i)" by simp
  with i' show ?thesis by blast
qed

lemma swapInstructions_again:
  "filename a' = filename a \<Longrightarrow> filename b' = filename b \<Longrightarrow>
   swapInstructions a' b' (swapInstructions a b m) = swapInstructions a b m \<and>
   swapInstructions b' a' (swapInstructions a b m) = swapInstructions a b m"
  by (auto simp: swapInstructions_def fun_eq_iff)

lemma swapInstructions_filenames:
  "filename a' = filename a \<Longrightarrow> filename b' = filename b \<Longrightarrow>
   swapInstructions a' b' = swapInstructions a b"
  by (simp add: swapInstructions_def fun_eq_iff)

lemma plan_second_drag:
  assumes e1: "over event = Some ov"
    "item_id (active event) \<noteq> item_id ov"
    "item_sku (active event) = item_sku ov"
    "findIndex (\<lambda>p. sku p = item_sku (active event)) (products s) = Some productIndex"
    "findIndex (\<lambda>p. photo_id p = item_id (active event)) (photos (products s ! productIndex))
       = Some activeIndex"
    "findIndex (\<lambda>p. photo_id p = item_id ov) (photos (products s ! productIndex))
       = Some overIndex"
    and d: "distinct (map photo_id (photos (products s ! productIndex)))"
    and e2: "over event2 = Some ov2"
    "item_id (active event2) \<noteq> item_id ov2"
    "item_sku (active event2) = item_sku ov2"
    "item_sku (active event2) = item_sku (active event)"
    "findIndex (\<lambda>p. photo_id p = item_id (active event2)) (photos (products s ! productIndex))
       = Some i2"
    "findIndex (\<lambda>p. photo_id p = item_id ov2) (photos (products s ! productIndex)) = Some j2"
  shows "plan (handleDragEnd (handleDragEnd s event) event2) (item_sku (active event)) =
    Some (swapInstructions (photos (products s ! productIndex) ! i2)
            (photos (products s ! productIndex) ! j2)
            (swapInstructions (photos (products s ! productIndex) ! activeIndex)
               (photos (products s ! productIndex) ! overIndex)
               (planOrEmpty s (item_sku (active event)))))"
proof -
  let ?k = "item_sku (active event)"
  let ?s1 = "handleDragEnd s event"
  let ?ps = "photos (products s ! productIndex)"
  let ?qs = "renumber (arrayMove ?ps activeIndex overIndex)"
  from findIndex_SomeD[OF e1(4)]
  have pl: "productIndex < length (products s)" and sk: "sku (products s ! productIndex) = ?k"
    by auto
  from findIndex_SomeD[OF e1(5)] have al: "activeIndex < length ?ps" by simp
  have ps1: "products ?s1 = (products s)[productIndex := (products s ! productIndex)\<lparr>photos := ?qs\<rparr>]"
    by (rule products_handleDragEnd[OF e1])
  have fp: "findIndex (\<lambda>p. sku p = item_sku (active event2)) (products ?s1) = Some productIndex"
    unfolding ps1 e2(4) by (rule findIndex_update[OF e1(4)]) (simp add: sk)
  have qs: "photos (products ?s1 ! productIndex) = ?qs"
    unfolding ps1 using pl by simp
  from findIndex_after_move[OF d e2(5) al, of overIndex]
  obtain i' where i': "findIndex (\<lambda>p. photo_id p = item_id (active event2)) ?qs = Some i'"
    "filename (?qs ! i') = filename (?ps ! i2)" by blast
  from findIndex_after_move[OF d e2(6) al, of overIndex]
  obtain j' where j': "findIndex (\<lambda>p. photo_id p = item_id ov2) ?qs = Some j'"
    "filename (?qs ! j') = filename (?ps ! j2)" by blast
  have p1: "planOrEmpty ?s1 ?k = swapInstructions (?ps ! activeIndex) (?ps ! overIndex) (planOrEmpty s ?k)"
    by (simp add: planOrEmpty_def plan_handleDragEnd[OF e1])
  have "plan (handleDragEnd ?s1 event2) (item_sku (active event2)) =
      Some (swapInstructions (photos (products ?s1 ! productIndex) ! i')
              (photos (products ?s1 ! productIndex) ! j')
              (planOrEmpty ?s1 (item_sku (active event2))))"
    by (rule plan_handleDragEnd[OF e2(1,2,3) fp]) (simp_all only: qs i' j')
  then show ?thesis
    unfolding qs e2(4) p1 by (simp only: swapInstructions_filenames[OF i'(2) j'(2)])
qed

section \<open>Merging the instructions of an operation into the plan\<close>




section \<open>Swapping twice\<close>

text \<open>
  Claim C3, as amended. In a collection whose ids are distinct, dropping a photo on
  another and then dropping it on the same photo again, or dropping the second on the
  first, leaves the plan of the collection as it was after the first drop: the second
  drop assigns the same two entries again. That plan maps the second photo's name to
  the first photo's name and the first photo's name to the second's, so it is not empty.
\<close>

theorem swap_again_keeps_swap_entries:
  assumes "over event = Some ov"
    and "item_id (active event) \<noteq> item_id ov"
    and "item_sku (active event) = item_sku ov"
    and "findIndex (\<lambda>p. sku p = item_sku (active event)) (products s) = Some productIndex"
    and "findIndex (\<lambda>p. photo_id p = item_id (active event)) (photos (products s ! productIndex))
           = Some activeIndex"
    and "findIndex (\<lambda>p. photo_id p = item_id ov) (photos (products s ! productIndex))
           = Some overIndex"
    and "distinct (map photo_id (photos (products s ! productIndex)))"
  shows "plan (handleDragEnd (handleDragEnd s event) event) (item_sku (active event))
           = plan (handleDragEnd s event) (item_sku (active event))
       \<and> plan (handleDragEnd (handleDragEnd s event) \<lparr>active = ov, over = Some (active event)\<rparr>)
            (item_sku (active event))
           = plan (handleDragEnd s event) (item_sku (active event))
       \<and> lookupPlan (handleDragEnd s event) (item_sku (active event))
            (filename (photos (products s ! productIndex) ! overIndex))
           = Some (filename (photos (products s ! productIndex) ! activeIndex))
       \<and> lookupPlan (handleDragEnd s event) (item_sku (active event))
            (filename (photos (products s ! productIndex) ! activeIndex))
           = Some (filename (photos (products s ! productIndex) ! overIndex))"
proof (intro conjI)
  let ?ps = "photos (products s ! productIndex)"
  note first = plan_handleDragEnd[OF assms(1-6)]
  show "plan (handleDragEnd (handleDragEnd s event) event) (item_sku (active event))
           = plan (handleDragEnd s event) (item_sku (active event))"
    unfolding first plan_second_drag[OF assms assms(1,2,3) refl assms(5,6)]
    using swapInstructions_again[of "?ps ! activeIndex" "?ps ! activeIndex" "?ps ! overIndex" "?ps ! overIndex"]
    by simp
  let ?rev = "\<lparr>active = ov, over = Some (active event)\<rparr>"
  have r: "over ?rev = Some (active event)" "item_id (active ?rev) \<noteq> item_id (active event)"
    "item_sku (active ?rev) = item_sku (active event)"
    "findIndex (\<lambda>p. photo_id p = item_id (active ?rev)) ?ps = Some overIndex"
    using assms(2,3,6) by simp_all
  show "plan (handleDragEnd (handleDragEnd s event) ?rev) (item_sku (active event))
           = plan (handleDragEnd s event) (item_sku (active event))"
    unfolding first plan_second_drag[OF assms r(1,2,3,3,4) assms(5)]
    using swapInstructions_again[of "?ps ! activeIndex" "?ps ! activeIndex" "?ps ! overIndex" "?ps ! overIndex"]
    by simp
  show "lookupPlan (handleDragEnd s event) (item_sku (active event)) (filename (?ps ! overIndex))
           = Some (filename (?ps ! activeIndex))"
    by (simp add: lookupPlan_def first swapInstructions_def)
  show "lookupPlan (handleDragEnd s event) (item_sku (active event)) (filename (?ps ! activeIndex))
           = Some (filename (?ps ! overIndex))"
    by (simp add: lookupPlan_def first swapInstructions_def)
qed

text \<open>The theorem at the collection of two photos.\<close>

theorem swap_again_keeps_swap_entries_witness:
  "plan swappedBack ''s''
     = plan (handleDragEnd (loadedState [listing12]) (dropOn ''s'' ''s-1'' ''s-2'')) ''s''
   \<and> plan (handleDragEnd (handleDragEnd (loadedState [listing12]) (dropOn ''s'' ''s-1'' ''s-2''))
          (dropOn ''s'' ''s-2'' ''s-1'')) ''s''
     = plan (handleDragEnd (loadedState [listing12]) (dropOn ''s'' ''s-1'' ''s-2'')) ''s''
   \<and> lookupPlan (handleDragEnd (loadedState [listing12]) (dropOn ''s'' ''s-1'' ''s-2'')) ''s'' ''2.jpg''
     = Some ''1.jpg''
   \<and> lookupPlan (handleDragEnd (loadedState [listing12]) (dropOn ''s'' ''s-1'' ''s-2'')) ''s'' ''1.jpg''
     = Some ''2.jpg''"
proof -
  let ?s = "loadedState [listing12]"
  let ?e = "dropOn ''s'' ''s-1'' ''s-2''"
  let ?ps = "photos (products ?s ! 0)"
  have h: "over ?e = Some \<lparr>item_id = ''s-2'', item_sku = ''s''\<rparr>"
    "item_id (active ?e) \<noteq> item_id \<lparr>item_id = ''s-2'', item_sku = ''s''\<rparr>"
    "item_sku (active ?e) = item_sku \<lparr>item_id = ''s-2'', item_sku = ''s''\<rparr>"
    by (simp_all add: dropOn_def)
  have k: "item_sku (active ?e) = ''s''" "item_id (active ?e) = ''s-1''" by (simp_all add: dropOn_def)
  have i: "findIndex (\<lambda>p. sku p = item_sku (active ?e)) (products ?s) = Some 0"
    "findIndex (\<lambda>p. photo_id p = item_id (active ?e)) ?ps = Some 0"
    "findIndex (\<lambda>p. photo_id p = item_id \<lparr>item_id = ''s-2'', item_sku = ''s''\<rparr>) ?ps = Some 1"
    unfolding k by code_simp+
  have d: "distinct (map photo_id ?ps)" by code_simp
  have n: "filename (?ps ! 0) = ''1.jpg''" "filename (?ps ! Suc 0) = ''2.jpg''" by code_simp+
  note th = swap_again_keeps_swap_entries[OF h i d]
  from th[THEN conjunct1]
  have a: "plan swappedBack ''s'' = plan (handleDragEnd ?s ?e) ''s''"
    by (simp add: swappedBack_def k)
  from th[THEN conjunct2, THEN conjunct2, THEN conjunct1]
  have b: "lookupPlan (handleDragEnd ?s ?e) ''s'' ''2.jpg'' = Some ''1.jpg''"
    by (simp add: k n)
  from th[THEN conjunct2, THEN conjunct2, THEN conjunct2]
  have b': "lookupPlan (handleDragEnd ?s ?e) ''s'' ''1.jpg'' = Some ''2.jpg''"
    by (simp add: k n)
  have r: "\<lparr>active = \<lparr>item_id = ''s-2'', item_sku = ''s''\<rparr>, over = Some (active ?e)\<rparr>
      = dropOn ''s'' ''s-2'' ''s-1''" by (simp add: dropOn_def)
  from th[THEN conjunct2, THEN conjunct1]
  have c: "plan (handleDragEnd (handleDragEnd ?s ?e) (dropOn ''s'' ''s-2'' ''s-1'')) ''s''
      = plan (handleDragEnd ?s ?e) ''s''"
    by (simp only: r k)
  from a b b' c show ?thesis by simp
qed

text \<open>
  Claim C3 as the specification states it fails: after the two drops of \<open>swappedBack\<close>
  the photos are in their first order again, and the plan of the collection, empty at
  the start, holds \<^verbatim>\<open>1.jpg\<close> \<open>\<mapsto>\<close> \<^verbatim>\<open>2.jpg\<close> and \<^verbatim>\<open>2.jpg\<close> \<open>\<mapsto>\<close> \<^verbatim>\<open>1.jpg\<close>.
\<close>

theorem swap_self_inverse_counterexample:
  "map photo_id (photos (products swappedBack ! 0)) = map photo_id (photos listing12)
   \<and> lookupPlan swappedBack ''s'' ''1.jpg'' = Some ''2.jpg''
   \<and> lookupPlan swappedBack ''s'' ''2.jpg'' = Some ''1.jpg''
   \<and> plan swappedBack ''s'' \<noteq> Some Map.empty
   \<and> plan swappedBack ''s'' \<noteq> None"
proof -
  have a: "map photo_id (photos (products swappedBack ! 0)) = map photo_id (photos listing12)"
    "lookupPlan swappedBack ''s'' ''1.jpg'' = Some ''2.jpg''"
    "lookupPlan swappedBack ''s'' ''2.jpg'' = Some ''1.jpg''" by code_simp+
  from a(2) have "plan swappedBack ''s'' \<noteq> Some Map.empty" "plan swappedBack ''s'' \<noteq> None"
    by (auto simp: lookupPlan_def split: option.splits)
  with a show ?thesis by simp
qed

section \<open>Applying a plan to a listing\<close>

lemma mset_insertPhoto: "mset (insertPhoto x xs) = add_mset x (mset xs)"
  by (induction xs) auto

lemma mset_sortPhotos: "mset (sortPhotos ps) = mset ps"
  by (induction ps) (auto simp: sortPhotos_def mset_insertPhoto)

lemma renumber_key:
  "map (\<lambda>p. (photo_id p, filename p)) (renumber ps) = map (\<lambda>p. (photo_id p, filename p)) ps"
  by (rule nth_equalityI) (simp_all add: length_renumber renumber_nth)

text \<open>
  Claim C4, as amended. Applying the instructions to a product looks every filename up
  in the plan of the product's sku once: the photos returned are the photos of the
  listing, each with the name the plan holds for its filename, or with its own name
  when the plan has no entry for it (or the empty string). A new name is not looked up
  again, no cycle is searched for, and the function has no error result. A product
  whose sku has no plan is returned as it is.
\<close>

theorem reconcile_applies_plan_once:
  "(instructions (sku product) = None \<longrightarrow> applyInstructions instructions product = product) \<and>
   (instructions (sku product) = Some m \<longrightarrow>
      mset (map (\<lambda>p. (photo_id p, filename p)) (photos (applyInstructions instructions product)))
      = mset (map (\<lambda>p. (photo_id p, newFilenameOf m (filename p))) (photos product))) \<and>
   (m name = None \<longrightarrow> newFilenameOf m name = name) \<and>
   (m name = Some n \<and> n \<noteq> [] \<longrightarrow> newFilenameOf m name = n) \<and>
   (m name = Some [] \<longrightarrow> newFilenameOf m name = name)"
proof (intro conjI impI)
  assume "instructions (sku product) = None"
  then show "applyInstructions instructions product = product"
    by (simp add: applyInstructions_def)
next
  assume m: "instructions (sku product) = Some m"
  let ?up = "map (\<lambda>photo. photo\<lparr>filename := newFilenameOf m (filename photo)\<rparr>) (photos product)"
  have "mset (map (\<lambda>p. (photo_id p, filename p)) (photos (applyInstructions instructions product)))
      = mset (map (\<lambda>p. (photo_id p, filename p)) (sortPhotos ?up))"
    using m by (simp add: applyInstructions_def Let_def renumber_key)
  also have "\<dots> = mset (map (\<lambda>p. (photo_id p, filename p)) ?up)"
    by (simp only: mset_map mset_sortPhotos)
  also have "map (\<lambda>p. (photo_id p, filename p)) ?up
      = map (\<lambda>p. (photo_id p, newFilenameOf m (filename p))) (photos product)"
    by (simp add: comp_def)
  finally show "mset (map (\<lambda>p. (photo_id p, filename p)) (photos (applyInstructions instructions product)))
      = mset (map (\<lambda>p. (photo_id p, newFilenameOf m (filename p))) (photos product))" .
next
  assume "m name = None"
  then show "newFilenameOf m name = name" by (simp add: newFilenameOf_def)
next
  assume "m name = Some n \<and> n \<noteq> []"
  then show "newFilenameOf m name = n" by (simp add: newFilenameOf_def)
next
  assume "m name = Some []"
  then show "newFilenameOf m name = name" by (simp add: newFilenameOf_def)
qed

text \<open>
  The theorem at the plan of \<open>swapped12\<close>, at a state with no plan, at a plan with
  the chain \<^verbatim>\<open>1.jpg\<close> \<open>\<mapsto>\<close> \<^verbatim>\<open>2.jpg\<close> \<open>\<mapsto>\<close> \<^verbatim>\<open>3.jpg\<close>, where \<^verbatim>\<open>1.jpg\<close> becomes \<^verbatim>\<open>2.jpg\<close>, and at
  an entry whose new name is the empty string.
\<close>

theorem reconcile_applies_plan_once_witness:
  "mset (map (\<lambda>p. (photo_id p, filename p)) (photos (applyInstructions (plan swapped12) listing123)))
   = mset [(''s-1'', ''2.jpg''), (''s-2'', ''1.jpg''), (''s-3'', ''3.jpg'')]
   \<and> applyInstructions (plan (loadedState [listing123])) listing123 = listing123
   \<and> newFilenameOf [''1.jpg'' \<mapsto> ''2.jpg'', ''2.jpg'' \<mapsto> ''3.jpg''] ''1.jpg'' = ''2.jpg''
   \<and> newFilenameOf [''1.jpg'' \<mapsto> ''2.jpg'', ''2.jpg'' \<mapsto> ''3.jpg''] ''3.jpg'' = ''3.jpg''
   \<and> newFilenameOf [''1.jpg'' \<mapsto> []] ''1.jpg'' = ''1.jpg''"
proof -
  let ?m = "swapInstructions (photos listing123 ! 0) (photos listing123 ! 1) Map.empty"
  have p: "plan swapped12 (sku listing123) = Some ?m"
    by (simp add: swapped12_def loadedState_def dropOn_def handleDragEnd_def listing123_def apiProduct_def Let_def plan_def readPlan_def copyInstructions_def toString.simps digitChar_def)
  have r: "map (\<lambda>p. (photo_id p, newFilenameOf ?m (filename p))) (photos listing123)
      = [(''s-1'', ''2.jpg''), (''s-2'', ''1.jpg''), (''s-3'', ''3.jpg'')]" by code_simp
  have e: "plan (loadedState [listing123]) (sku listing123) = None"
    by (simp add: plan_def readPlan_def loadedState_def)
  note th = reconcile_applies_plan_once
  from th[of "plan swapped12" listing123 ?m, THEN conjunct2, THEN conjunct1, rule_format, OF p]
  have a: "mset (map (\<lambda>p. (photo_id p, filename p)) (photos (applyInstructions (plan swapped12) listing123)))
   = mset [(''s-1'', ''2.jpg''), (''s-2'', ''1.jpg''), (''s-3'', ''3.jpg'')]"
    by (simp only: r)
  from th[of "plan (loadedState [listing123])" listing123, THEN conjunct1, rule_format, OF e]
  have b: "applyInstructions (plan (loadedState [listing123])) listing123 = listing123" .
  let ?c = "[''1.jpg'' \<mapsto> ''2.jpg'', ''2.jpg'' \<mapsto> ''3.jpg'']"
  from th[of _ _ ?c "''1.jpg''" "''2.jpg''"] have c: "newFilenameOf ?c ''1.jpg'' = ''2.jpg''" by simp
  from th[of _ _ ?c "''3.jpg''"] have d: "newFilenameOf ?c ''3.jpg'' = ''3.jpg''" by simp
  from th[of _ _ "[''1.jpg'' \<mapsto> []]" "''1.jpg''"]
  have e': "newFilenameOf [''1.jpg'' \<mapsto> []] ''1.jpg'' = ''1.jpg''" by simp
  from a b c d e' show ?thesis by simp
qed

text \<open>
  Claim C4 as the specification states it fails. The plan of \<open>swapped12\<close> is a cycle,
  \<^verbatim>\<open>1.jpg\<close> \<open>\<mapsto>\<close> \<^verbatim>\<open>2.jpg\<close> \<open>\<mapsto>\<close> \<^verbatim>\<open>1.jpg\<close>: following it never reaches a name with no entry.
  Applying it to the listing returns an order all the same, with each name followed
  for one step.
\<close>

theorem reconcile_follows_chain_counterexample:
  "lookupPlan swapped12 ''s'' ''1.jpg'' = Some ''2.jpg''
   \<and> lookupPlan swapped12 ''s'' ''2.jpg'' = Some ''1.jpg''
   \<and> map photo_id (photos (applyInstructions (plan swapped12) listing123)) = [''s-2'', ''s-1'', ''s-3'']
   \<and> map filename (photos (applyInstructions (plan swapped12) listing123)) = [''1.jpg'', ''2.jpg'', ''3.jpg'']"
  by code_simp

section \<open>The order after a reload and the order in memory\<close>

text \<open>
  Claim C2 fails on the code. After the two drops of \<open>swappedBack\<close> the photos are shown
  in the order \<^verbatim>\<open>s-1\<close>, \<^verbatim>\<open>s-2\<close>. Applying the plan of that state to the listing, as the next
  load of the page does, gives the order \<^verbatim>\<open>s-2\<close>, \<^verbatim>\<open>s-1\<close>.
\<close>

theorem reload_order_differs_from_memory:
  "map photo_id (photos (products swappedBack ! 0)) = [''s-1'', ''s-2'']
   \<and> map photo_id (photos (applyInstructions (plan swappedBack) listing12)) = [''s-2'', ''s-1'']"
  by code_simp

section \<open>The plan held before an operation\<close>

text \<open>
  Claim C9 fails on the code. The second drop of \<open>movedTwice\<close> copies the outer object
  only: the new outer object holds the address the old one holds for the sku, and the
  assignments go to the inner object at that address. Read after the drop, the plan
  held before it has the entry \<^verbatim>\<open>3.jpg\<close> \<open>\<mapsto>\<close> \<^verbatim>\<open>1.jpg\<close> it did not have, and maps
  \<^verbatim>\<open>1.jpg\<close> to \<^verbatim>\<open>3.jpg\<close> where it mapped it to \<^verbatim>\<open>2.jpg\<close>.
\<close>

theorem old_plan_mutated_in_place:
  "renameInstructions movedTwice ''s'' = renameInstructions swapped12 ''s''
   \<and> lookupIn (renameInstructions swapped12) (heap swapped12) ''s'' ''3.jpg'' = None
   \<and> lookupIn (renameInstructions swapped12) (heap movedTwice) ''s'' ''3.jpg'' = Some ''1.jpg''
   \<and> lookupIn (renameInstructions swapped12) (heap swapped12) ''s'' ''1.jpg'' = Some ''2.jpg''
   \<and> lookupIn (renameInstructions swapped12) (heap movedTwice) ''s'' ''1.jpg'' = Some ''3.jpg''"
  by code_simp

end
